theory Spec2Isabelle
  imports Complex_Main
begin

section \<open>ERCRD framework: numeric and array conventions\<close>

text \<open>
  The development embeds \<^verbatim>\<open>src/ercrd/core.py\<close>. A one-dimensional numpy array is a
  \<^typ>\<open>real list\<close>, a two-dimensional one a list of rows. Array entries are read as
  exact reals: rounding of 64-bit floats is outside the embedding. Every Python
  exception the code can raise is a value of \<open>error\<close>, and a function that may raise
  returns \<open>error + 'a\<close> with \<open>Inl\<close> for the exception.
\<close>

datatype error = NotImplementedError | ValueError | ZeroDivisionError | IndexError

text \<open>
  \<^verbatim>\<open>a.reshape(rows, cols)\<close> on a one-dimensional array: numpy raises ValueError
  unless \<open>rows * cols\<close> is the size of the array, and otherwise cuts the array into
  \<open>rows\<close> consecutive rows of \<open>cols\<close> entries (row-major order).
\<close>

definition reshape :: "real list \<Rightarrow> nat \<Rightarrow> nat \<Rightarrow> error + real list list" where
  "reshape a rows cols =
     (if rows * cols \<noteq> length a then Inl ValueError
      else Inr (map (\<lambda>k. take cols (drop (k * cols) a)) [0..<rows]))"

text \<open>\<^verbatim>\<open>np.tile(x0, reps)\<close> on a one-dimensional array: \<open>reps\<close> copies, one after another.\<close>

definition tile :: "real list \<Rightarrow> nat \<Rightarrow> real list" where
  "tile x0 reps = concat (replicate reps x0)"

text \<open>
  Modelled from the spec: the source has no function that flattens a trajectory (it
  only ever reshapes a flat vector); the spec's \<open>encode\<close> is the row-major flatten, the
  rows written one after another.
\<close>

definition encode :: "real list list \<Rightarrow> real list" where
  "encode X = concat X"

section \<open>The optimizer base class\<close>

text \<open>
  The attributes \<^verbatim>\<open>ERCRDOptimizer.__init__\<close> sets. A subclass adds attributes of its
  own, so an instance (Python's \<^verbatim>\<open>self\<close>) is a record extending this one. The step
  count is a natural number: negative counts are outside the embedding.
\<close>

record ercrd_optimizer =
  alpha :: real
  beta :: real
  gamma :: real
  T :: real
  n_steps :: nat
  dt :: real

text \<open>
  \<^verbatim>\<open>__init__\<close>: the division \<^verbatim>\<open>time_horizon / discretization_steps\<close> raises
  ZeroDivisionError for a step count of zero. The source's defaults are
  \<open>0.4, 0.3, 0.3, 1.0, 100\<close>.
\<close>

definition ERCRDOptimizer_init ::
  "real \<Rightarrow> real \<Rightarrow> real \<Rightarrow> real \<Rightarrow> nat \<Rightarrow> error + ercrd_optimizer" where
  "ERCRDOptimizer_init a b g time_horizon discretization_steps =
     (if discretization_steps = 0 then Inl ZeroDivisionError
      else Inr \<lparr>alpha = a, beta = b, gamma = g, T = time_horizon,
                n_steps = discretization_steps,
                dt = time_horizon / real discretization_steps\<rparr>)"

text \<open>
  The overridable methods. Each one receives the instance, a state vector and a time;
  it returns its value together with the instance as the call leaves it, or raises.
  A record of the four methods plays the role of the class's method table. The
  fifth method of the source, \<^verbatim>\<open>system_dynamics\<close>, is called nowhere and is left out.
\<close>

record 'a methods =
  efficiency_term ::
    "'a ercrd_optimizer_scheme \<Rightarrow> real list \<Rightarrow> real \<Rightarrow> error + real \<times> 'a ercrd_optimizer_scheme"
  adaptability_term ::
    "'a ercrd_optimizer_scheme \<Rightarrow> real list \<Rightarrow> real \<Rightarrow> error + real \<times> 'a ercrd_optimizer_scheme"
  collective_efficiency_term ::
    "'a ercrd_optimizer_scheme \<Rightarrow> real list \<Rightarrow> real \<Rightarrow> error + real \<times> 'a ercrd_optimizer_scheme"
  constraints ::
    "'a ercrd_optimizer_scheme \<Rightarrow> real list \<Rightarrow> real \<Rightarrow> error + real list \<times> 'a ercrd_optimizer_scheme"

text \<open>The base class implements none of them.\<close>

definition ERCRDOptimizer_methods :: "'a methods" where
  "ERCRDOptimizer_methods =
     \<lparr>efficiency_term = (\<lambda>s x t. Inl NotImplementedError),
      adaptability_term = (\<lambda>s x t. Inl NotImplementedError),
      collective_efficiency_term = (\<lambda>s x t. Inl NotImplementedError),
      constraints = (\<lambda>s x t. Inl NotImplementedError)\<rparr>"

subsection \<open>\<^verbatim>\<open>objective_function\<close>\<close>

text \<open>
  One pass of the loop body for step \<open>k\<close>, on the running total and the instance. The
  three method calls happen in the source's order, each on the instance the previous
  call left; a weight attribute is read before the call it multiplies, the step count
  and \<open>dt\<close> of the last line after all three calls.
\<close>

definition objective_step ::
  "'a methods \<Rightarrow> real list list \<Rightarrow> nat \<Rightarrow> real \<times> 'a ercrd_optimizer_scheme
     \<Rightarrow> error + real \<times> 'a ercrd_optimizer_scheme" where
  "objective_step M x_trajectory k acc =
     (case acc of (total_cost, s) \<Rightarrow>
        let t = real k * dt s; x_k = x_trajectory ! k in
        case efficiency_term M s x_k t of Inl e \<Rightarrow> Inl e
        | Inr (e1, s1) \<Rightarrow>
        let efficiency = alpha s * e1 in
        case adaptability_term M s1 x_k t of Inl e \<Rightarrow> Inl e
        | Inr (a1, s2) \<Rightarrow>
        let adaptability = beta s1 * a1 in
        case collective_efficiency_term M s2 x_k t of Inl e \<Rightarrow> Inl e
        | Inr (c1, s3) \<Rightarrow>
        let collective = gamma s2 * c1;
            weight = (if k = 0 \<or> int k = int (n_steps s3) - 1 then 0.5 else 1.0)
        in Inr (total_cost + weight * (efficiency + adaptability + collective) * dt s3, s3))"

fun objective_loop ::
  "'a methods \<Rightarrow> real list list \<Rightarrow> nat list \<Rightarrow> real \<times> 'a ercrd_optimizer_scheme
     \<Rightarrow> error + real \<times> 'a ercrd_optimizer_scheme" where
  "objective_loop M x_trajectory [] acc = Inr acc"
| "objective_loop M x_trajectory (k # ks) acc =
     (case objective_step M x_trajectory k acc of Inl e \<Rightarrow> Inl e
      | Inr acc' \<Rightarrow> objective_loop M x_trajectory ks acc')"

text \<open>
  The decoding at the head of \<^verbatim>\<open>objective_function\<close>: the state dimension is not
  stored anywhere, it is the floor quotient of the vector's size by the step count.
\<close>

definition objective_decode :: "'a ercrd_optimizer_scheme \<Rightarrow> real list \<Rightarrow> error + real list list" where
  "objective_decode s x_flat =
     (if n_steps s = 0 then Inl ZeroDivisionError
      else let n_states = length x_flat div n_steps s
           in reshape x_flat (n_steps s) n_states)"

definition objective_function ::
  "'a methods \<Rightarrow> 'a ercrd_optimizer_scheme \<Rightarrow> real list
     \<Rightarrow> error + real \<times> 'a ercrd_optimizer_scheme" where
  "objective_function M s x_flat =
     (case objective_decode s x_flat of Inl e \<Rightarrow> Inl e
      | Inr x_trajectory \<Rightarrow> objective_loop M x_trajectory [0..<n_steps s] (0, s))"

subsection \<open>\<^verbatim>\<open>optimize\<close> and its constraint closure\<close>

definition constraints_step ::
  "'a methods \<Rightarrow> real list list \<Rightarrow> nat \<Rightarrow> real list \<times> 'a ercrd_optimizer_scheme
     \<Rightarrow> error + real list \<times> 'a ercrd_optimizer_scheme" where
  "constraints_step M x_trajectory k acc =
     (case acc of (constraint_values, s) \<Rightarrow>
        let t = real k * dt s in
        case constraints M s (x_trajectory ! k) t of Inl e \<Rightarrow> Inl e
        | Inr (constraint_vals, s1) \<Rightarrow> Inr (constraint_values @ constraint_vals, s1))"

fun constraints_loop ::
  "'a methods \<Rightarrow> real list list \<Rightarrow> nat list \<Rightarrow> real list \<times> 'a ercrd_optimizer_scheme
     \<Rightarrow> error + real list \<times> 'a ercrd_optimizer_scheme" where
  "constraints_loop M x_trajectory [] acc = Inr acc"
| "constraints_loop M x_trajectory (k # ks) acc =
     (case constraints_step M x_trajectory k acc of Inl e \<Rightarrow> Inl e
      | Inr acc' \<Rightarrow> constraints_loop M x_trajectory ks acc')"

text \<open>
  The closure \<^verbatim>\<open>path_constraints\<close> of \<^verbatim>\<open>optimize\<close>; \<open>n_states\<close> is the variable it
  captures, the size of \<open>x0\<close>.
\<close>

definition path_constraints ::
  "'a methods \<Rightarrow> nat \<Rightarrow> 'a ercrd_optimizer_scheme \<Rightarrow> real list
     \<Rightarrow> error + real list \<times> 'a ercrd_optimizer_scheme" where
  "path_constraints M n_states s x_flat =
     (case reshape x_flat (n_steps s) n_states of Inl e \<Rightarrow> Inl e
      | Inr x_trajectory \<Rightarrow> constraints_loop M x_trajectory [0..<n_steps s] ([], s))"

text \<open>The function of the one constraint group: \<^verbatim>\<open>lambda x: -path_constraints(x)\<close>.\<close>

definition ineq_fun ::
  "'a methods \<Rightarrow> nat \<Rightarrow> 'a ercrd_optimizer_scheme \<Rightarrow> real list
     \<Rightarrow> error + real list \<times> 'a ercrd_optimizer_scheme" where
  "ineq_fun M n_states s x_flat =
     (case path_constraints M n_states s x_flat of Inl e \<Rightarrow> Inl e
      | Inr (vals, s1) \<Rightarrow> Inr (map uminus vals, s1))"

text \<open>
  The external solver (\<^verbatim>\<open>scipy.optimize.minimize\<close>) is a parameter. It receives the
  arguments below and the instance, since the functions it is given are calls on the
  instance, and returns scipy's result object and the instance as its calls left it,
  or lets an exception of one of those calls through.
\<close>

record 'a minimize_args =
  arg_fun :: "'a ercrd_optimizer_scheme \<Rightarrow> real list \<Rightarrow> error + real \<times> 'a ercrd_optimizer_scheme"
  arg_x0 :: "real list"
  arg_method :: string
  arg_bounds :: "(real option \<times> real option) list"
  arg_constraints ::
    "(string \<times> ('a ercrd_optimizer_scheme \<Rightarrow> real list
        \<Rightarrow> error + real list \<times> 'a ercrd_optimizer_scheme)) list"
  arg_maxiter :: int
  arg_ftol :: real

record minimize_result =
  res_x :: "real list"
  res_success :: bool
  res_fun :: real
  res_nit :: int
  res_message :: string

text \<open>The values a result dictionary can hold.\<close>

datatype pyval =
  PyBool bool | PyFloat real | PyInt int | PyArray "real list list" | PyStr string

text \<open>What \<^verbatim>\<open>optimize\<close> passes to \<^verbatim>\<open>minimize\<close>.\<close>

definition minimize_call ::
  "'a methods \<Rightarrow> 'a ercrd_optimizer_scheme \<Rightarrow> real list \<Rightarrow> string \<Rightarrow> int \<Rightarrow> 'a minimize_args" where
  "minimize_call M s x0 method max_iter =
     (let n_states = length x0;
          x0_trajectory = tile x0 (n_steps s)
      in \<lparr>arg_fun = objective_function M,
          arg_x0 = x0_trajectory,
          arg_method = method,
          arg_bounds = replicate (n_states * n_steps s) (None, None),
          arg_constraints = [(''ineq'', ineq_fun M n_states)],
          arg_maxiter = max_iter,
          arg_ftol = 1 / 1000000\<rparr>)"

text \<open>
  \<^verbatim>\<open>optimize\<close>: the returned dictionary is an association list in the order the
  source writes its keys.
\<close>

definition optimize ::
  "'a methods
   \<Rightarrow> ('a minimize_args \<Rightarrow> 'a ercrd_optimizer_scheme \<Rightarrow> error + minimize_result \<times> 'a ercrd_optimizer_scheme)
   \<Rightarrow> 'a ercrd_optimizer_scheme \<Rightarrow> real list \<Rightarrow> string \<Rightarrow> int
   \<Rightarrow> error + (string \<times> pyval) list \<times> 'a ercrd_optimizer_scheme" where
  "optimize M minimize s x0 method max_iter =
     (let n_states = length x0 in
      case minimize (minimize_call M s x0 method max_iter) s of Inl e \<Rightarrow> Inl e
      | Inr (result, s1) \<Rightarrow>
        (case reshape (res_x result) (n_steps s1) n_states of Inl e \<Rightarrow> Inl e
         | Inr optimal_trajectory \<Rightarrow>
             Inr ([(''success'', PyBool (res_success result)),
                   (''optimal_trajectory'', PyArray optimal_trajectory),
                   (''final_cost'', PyFloat (res_fun result)),
                   (''nit'', PyInt (res_nit result))], s1)))"

section \<open>The energy model\<close>

text \<open>
  \<^verbatim>\<open>EnergyERCRD\<close> adds the node count, the coupling matrix (a two-dimensional array),
  the generators' cost triples \<open>[a, b, max capacity]\<close> and, once
  \<^verbatim>\<open>adaptability_term\<close> has run, the attribute \<^verbatim>\<open>prev_P\<close>; \<open>None\<close> stands for the
  attribute not being there (\<^verbatim>\<open>hasattr\<close> is false).
\<close>

record energy_ercrd = ercrd_optimizer +
  num_nodes :: nat
  line_params :: "real list list"
  generator_costs :: "(real \<times> real \<times> real) list"
  prev_P :: "real list option"

definition EnergyERCRD_init ::
  "nat \<Rightarrow> real list list \<Rightarrow> (real \<times> real \<times> real) list
   \<Rightarrow> real \<Rightarrow> real \<Rightarrow> real \<Rightarrow> real \<Rightarrow> nat \<Rightarrow> error + energy_ercrd" where
  "EnergyERCRD_init n line_parameters costs a b g time_horizon discretization_steps =
     (case ERCRDOptimizer_init a b g time_horizon discretization_steps of Inl e \<Rightarrow> Inl e
      | Inr base \<Rightarrow>
          Inr \<lparr>alpha = alpha base, beta = beta base, gamma = gamma base, T = T base,
               n_steps = n_steps base, dt = dt base,
               num_nodes = n, line_params = line_parameters, generator_costs = costs,
               prev_P = None\<rparr>)"

text \<open>
  \<^verbatim>\<open>efficiency_term\<close>: the loop over the nodes. Reading \<^verbatim>\<open>generator_costs[i]\<close> or
  \<^verbatim>\<open>P[i]\<close> past the end raises IndexError.
\<close>

fun efficiency_loop ::
  "(real \<times> real \<times> real) list \<Rightarrow> real list \<Rightarrow> nat list \<Rightarrow> real \<Rightarrow> error + real" where
  "efficiency_loop costs P [] cost = Inr cost"
| "efficiency_loop costs P (i # rest) cost =
     (if length costs \<le> i then Inl IndexError
      else case costs ! i of (a, b, c) \<Rightarrow>
        if length P \<le> i then Inl IndexError
        else efficiency_loop costs P rest (cost + (a * (P ! i)\<^sup>2 + b * P ! i + c)))"

definition EnergyERCRD_efficiency_term ::
  "energy_ercrd \<Rightarrow> real list \<Rightarrow> real \<Rightarrow> error + real \<times> energy_ercrd" where
  "EnergyERCRD_efficiency_term s x t =
     (let P = take (num_nodes s) x in
      case efficiency_loop (generator_costs s) P [0..<num_nodes s] 0 of Inl e \<Rightarrow> Inl e
      | Inr cost \<Rightarrow> Inr (cost, s))"

text \<open>
  \<^verbatim>\<open>P - self.prev_P\<close> on two one-dimensional arrays follows numpy's broadcasting:
  equal sizes subtract entry by entry, an array of size one is stretched to the size
  of the other, and any other pair of sizes raises ValueError.
\<close>

definition np_sub :: "real list \<Rightarrow> real list \<Rightarrow> error + real list" where
  "np_sub a b =
     (if length a = length b then Inr (map (\<lambda>(u, v). u - v) (zip a b))
      else if length a = 1 then Inr (map (\<lambda>v. hd a - v) b)
      else if length b = 1 then Inr (map (\<lambda>u. u - hd b) a)
      else Inl ValueError)"

text \<open>
  \<^verbatim>\<open>adaptability_term\<close>: the only method that assigns an attribute. When the
  subtraction raises, the assignment is not reached.
\<close>

definition EnergyERCRD_adaptability_term ::
  "energy_ercrd \<Rightarrow> real list \<Rightarrow> real \<Rightarrow> error + real \<times> energy_ercrd" where
  "EnergyERCRD_adaptability_term s x t =
     (let P = take (num_nodes s) x in
      case (case prev_P s of
              Some prev \<Rightarrow>
                (case np_sub P prev of Inl e \<Rightarrow> Inl e
                 | Inr diff \<Rightarrow> Inr (sum_list (map (\<lambda>v. v\<^sup>2) diff)))
            | None \<Rightarrow> Inr 0) of
        Inl e \<Rightarrow> Inl e
      | Inr change \<Rightarrow> Inr (change, s\<lparr>prev_P := Some P\<rparr>))"

text \<open>
  \<^verbatim>\<open>collective_efficiency_term\<close>: \<^verbatim>\<open>line_params[i, j]\<close> and \<^verbatim>\<open>theta[i]\<close> raise
  IndexError past the end.
\<close>

definition np_index2 :: "real list list \<Rightarrow> nat \<Rightarrow> nat \<Rightarrow> error + real" where
  "np_index2 B i j =
     (if i < length B \<and> j < length (B ! i) then Inr (B ! i ! j) else Inl IndexError)"

fun collective_inner ::
  "real list list \<Rightarrow> real list \<Rightarrow> nat \<Rightarrow> nat list \<Rightarrow> real \<Rightarrow> error + real" where
  "collective_inner B theta i [] angle_diff = Inr angle_diff"
| "collective_inner B theta i (j # rest) angle_diff =
     (case np_index2 B i j of Inl e \<Rightarrow> Inl e
      | Inr b \<Rightarrow>
          if b \<noteq> 0 then
            (if i < length theta \<and> j < length theta
             then collective_inner B theta i rest (angle_diff + (theta ! i - theta ! j)\<^sup>2)
             else Inl IndexError)
          else collective_inner B theta i rest angle_diff)"

fun collective_outer ::
  "real list list \<Rightarrow> real list \<Rightarrow> nat \<Rightarrow> nat list \<Rightarrow> real \<Rightarrow> error + real" where
  "collective_outer B theta n [] angle_diff = Inr angle_diff"
| "collective_outer B theta n (i # rest) angle_diff =
     (case collective_inner B theta i [Suc i..<n] angle_diff of Inl e \<Rightarrow> Inl e
      | Inr angle_diff' \<Rightarrow> collective_outer B theta n rest angle_diff')"

definition EnergyERCRD_collective_efficiency_term ::
  "energy_ercrd \<Rightarrow> real list \<Rightarrow> real \<Rightarrow> error + real \<times> energy_ercrd" where
  "EnergyERCRD_collective_efficiency_term s x t =
     (let theta = drop (num_nodes s) x in
      case collective_outer (line_params s) theta (num_nodes s) [0..<num_nodes s] 0 of
        Inl e \<Rightarrow> Inl e
      | Inr angle_diff \<Rightarrow> Inr (angle_diff, s))"

text \<open>
  \<^verbatim>\<open>constraints\<close>: the budget residual first, then for each node the upper-bound and
  the lower-bound residual. \<^verbatim>\<open>np.sum(self.generator_costs, axis=0)[2]\<close> adds the third
  column over all rows; on an empty list the sum is a scalar and indexing it raises
  IndexError.
\<close>

fun constraints_nodes ::
  "(real \<times> real \<times> real) list \<Rightarrow> real list \<Rightarrow> nat list \<Rightarrow> real list \<Rightarrow> error + real list" where
  "constraints_nodes costs P [] constraint_values = Inr constraint_values"
| "constraints_nodes costs P (i # rest) constraint_values =
     (if length costs \<le> i then Inl IndexError
      else let max_gen = snd (snd (costs ! i)) in
        if length P \<le> i then Inl IndexError
        else constraints_nodes costs P rest (constraint_values @ [P ! i - max_gen, - (P ! i)]))"

definition EnergyERCRD_constraints ::
  "energy_ercrd \<Rightarrow> real list \<Rightarrow> real \<Rightarrow> error + real list \<times> energy_ercrd" where
  "EnergyERCRD_constraints s x t =
     (let P = take (num_nodes s) x in
      if generator_costs s = [] then Inl IndexError
      else let total_power =
                 sum_list P - sum_list (map (\<lambda>row. snd (snd row)) (generator_costs s)) * 0.8
           in case constraints_nodes (generator_costs s) P [0..<num_nodes s] [total_power] of
                Inl e \<Rightarrow> Inl e
              | Inr constraint_values \<Rightarrow> Inr (constraint_values, s))"

definition EnergyERCRD_methods ::
  "\<lparr>num_nodes :: nat, line_params :: real list list,
    generator_costs :: (real \<times> real \<times> real) list, prev_P :: real list option\<rparr> methods" where
  "EnergyERCRD_methods =
     \<lparr>efficiency_term = EnergyERCRD_efficiency_term,
      adaptability_term = EnergyERCRD_adaptability_term,
      collective_efficiency_term = EnergyERCRD_collective_efficiency_term,
      constraints = EnergyERCRD_constraints\<rparr>"

section \<open>Vocabulary of the properties\<close>

text \<open>
  Two instances have the same configuration when the attributes set by the base
  class's \<^verbatim>\<open>__init__\<close> agree.
\<close>

definition same_config :: "'a ercrd_optimizer_scheme \<Rightarrow> 'a ercrd_optimizer_scheme \<Rightarrow> bool" where
  "same_config s s' \<longleftrightarrow>
     alpha s' = alpha s \<and> beta s' = beta s \<and> gamma s' = gamma s \<and> T s' = T s \<and>
     n_steps s' = n_steps s \<and> dt s' = dt s"

text \<open>
  A model whose three terms evaluate to the constant \<open>c\<close> on every instance, state and
  time. The terms may keep state of their own, but leave the configuration alone.
\<close>

definition constant_terms :: "'a methods \<Rightarrow> real \<Rightarrow> bool" where
  "constant_terms M c \<longleftrightarrow>
     (\<forall>s x t. (\<exists>s'. efficiency_term M s x t = Inr (c, s') \<and> same_config s s') \<and>
              (\<exists>s'. adaptability_term M s x t = Inr (c, s') \<and> same_config s s') \<and>
              (\<exists>s'. collective_efficiency_term M s x t = Inr (c, s') \<and> same_config s s'))"

text \<open>The simplest such model: a subclass whose terms return \<open>c\<close> and touch nothing.\<close>

definition constant_model :: "real \<Rightarrow> 'a methods" where
  "constant_model c =
     \<lparr>efficiency_term = (\<lambda>s x t. Inr (c, s)),
      adaptability_term = (\<lambda>s x t. Inr (c, s)),
      collective_efficiency_term = (\<lambda>s x t. Inr (c, s)),
      constraints = (\<lambda>s x t. Inr ([], s))\<rparr>"

text \<open>The quadrature weight the loop of \<^verbatim>\<open>objective_function\<close> gives step \<open>k\<close> of \<open>K\<close>.\<close>

definition trapezoid_weight :: "nat \<Rightarrow> nat \<Rightarrow> real" where
  "trapezoid_weight K k = (if k = 0 \<or> int k = int K - 1 then 0.5 else 1.0)"

text \<open>
  A small energy instance for worked examples: one node, two steps over a horizon of
  two, the default weights, no coupling, cost triple \<open>[0, 0, 10]\<close>, freshly
  constructed. Its states have two entries: the power of the node and its angle.
\<close>

definition one_node :: energy_ercrd where
  "one_node =
     \<lparr>alpha = 0.4, beta = 0.3, gamma = 0.3, T = 2, n_steps = 2, dt = 1,
      num_nodes = 1, line_params = [[0]], generator_costs = [(0, 0, 10)], prev_P = None\<rparr>"

text \<open>
  The declared capacity of node \<open>i\<close>, the budget the first residual compares the total
  power with, the inputs on which \<^verbatim>\<open>constraints\<close> raises nothing (a state with at
  least \<open>num_nodes\<close> entries, a cost triple for every node, at least one triple), and
  feasibility of a state.
\<close>

definition max_capacity :: "energy_ercrd \<Rightarrow> nat \<Rightarrow> real" where
  "max_capacity s i = snd (snd (generator_costs s ! i))"

definition budget :: "energy_ercrd \<Rightarrow> real" where
  "budget s = sum_list (map (\<lambda>row. snd (snd row)) (generator_costs s)) * 0.8"

definition well_formed :: "energy_ercrd \<Rightarrow> real list \<Rightarrow> bool" where
  "well_formed s x \<longleftrightarrow>
     num_nodes s \<le> length x \<and> num_nodes s \<le> length (generator_costs s) \<and>
     generator_costs s \<noteq> []"

definition feasible :: "energy_ercrd \<Rightarrow> real list \<Rightarrow> bool" where
  "feasible s x \<longleftrightarrow>
     (\<forall>i < num_nodes s. 0 \<le> x ! i \<and> x ! i \<le> max_capacity s i) \<and>
     sum_list (take (num_nodes s) x) \<le> budget s"

text \<open>The residual vector of one state, written out: budget first, then two per node.\<close>

definition residuals :: "energy_ercrd \<Rightarrow> real list \<Rightarrow> real list" where
  "residuals s x =
     (sum_list (take (num_nodes s) x) - budget s) #
     concat (map (\<lambda>i. [x ! i - max_capacity s i, - (x ! i)]) [0..<num_nodes s])"

text \<open>
  Two stand-ins for the external solver, used as concrete inputs. Both evaluate the
  objective once at the starting vector and return that vector after one iteration; the
  first reports success, the second reports failure with a message.
\<close>

definition probe_solver ::
  "'a minimize_args \<Rightarrow> 'a ercrd_optimizer_scheme
     \<Rightarrow> error + minimize_result \<times> 'a ercrd_optimizer_scheme" where
  "probe_solver args s =
     (case arg_fun args s (arg_x0 args) of Inl e \<Rightarrow> Inl e
      | Inr (f, s1) \<Rightarrow>
          Inr (\<lparr>res_x = arg_x0 args, res_success = True, res_fun = f, res_nit = 1,
                res_message = ''Optimization terminated successfully''\<rparr>, s1))"


section \<open>Facts about reshaping\<close>

lemma concat_rows_upto:
  "n * d \<le> length a \<Longrightarrow>
   concat (map (\<lambda>k. take d (drop (k * d) a)) [0..<n]) = take (n * d) a"
proof (induction n)
  case 0
  then show ?case by simp
next
  case (Suc n)
  then have le: "n * d \<le> length a" by simp
  have "Suc n * d = n * d + d" by simp
  then have "take (Suc n * d) a = take (n * d) a @ take d (drop (n * d) a)"
    by (simp only: take_add)
  with Suc.IH [OF le] show ?case by simp
qed

lemma concat_rows: "n * d = length a \<Longrightarrow>
   concat (map (\<lambda>k. take d (drop (k * d) a)) [0..<n]) = a"
  using concat_rows_upto [of n d a] by simp

lemma rows_of_concat:
  "\<forall>r \<in> set X. length r = d \<Longrightarrow>
   map (\<lambda>k. take d (drop (k * d) (concat X))) [0..<length X] = X"
proof (induction X rule: rev_induct)
  case Nil
  then show ?case by simp
next
  case (snoc r X)
  then have rows: "\<forall>r \<in> set X. length r = d" and r: "length r = d" by simp_all
  have len: "length (concat X) = length X * d"
    using rows by (induction X) simp_all
  have a: "map (\<lambda>k. take d (drop (k * d) (concat X @ r))) [0..<length X] =
           map (\<lambda>k. take d (drop (k * d) (concat X))) [0..<length X]"
  proof (rule map_cong [OF refl])
    fix k assume "k \<in> set [0..<length X]"
    then have "Suc k \<le> length X" by simp
    then have "Suc k * d \<le> length X * d" by (rule mult_le_mono1)
    then have "k * d + d \<le> length (concat X)" using len by simp
    then show "take d (drop (k * d) (concat X @ r)) = take d (drop (k * d) (concat X))"
      by simp
  qed
  have b: "take d (drop (length X * d) (concat X @ r)) = r"
    using len r by simp
  show ?case using a b snoc.IH [OF rows] by simp
qed

lemma length_concat_rows:
  "\<forall>r \<in> set X. length r = d \<Longrightarrow> length (concat X) = length X * d"
  by (induction X) simp_all

lemma reshape_row:
  assumes "length a = n * d" and "k < n"
  shows "take d (drop (k * d) a) = map (\<lambda>j. a ! (k * d + j)) [0..<d]"
proof -
  from assms(2) have "Suc k \<le> n" by simp
  then have "Suc k * d \<le> n * d" by (rule mult_le_mono1)
  then have le: "k * d + d \<le> length a" using assms(1) by simp
  show ?thesis
  proof (rule nth_equalityI)
    show "length (take d (drop (k * d) a)) = length (map (\<lambda>j. a ! (k * d + j)) [0..<d])"
      using le by simp
  next
    fix i assume "i < length (take d (drop (k * d) a))"
    then have "i < d" by simp
    then show "take d (drop (k * d) a) ! i = map (\<lambda>j. a ! (k * d + j)) [0..<d] ! i"
      using le by simp
  qed
qed

lemma reshape_encode:
  "\<forall>r \<in> set X. length r = d \<Longrightarrow> reshape (encode X) (length X) d = Inr X"
  using length_concat_rows [of X d] rows_of_concat [of X d]
  by (simp add: reshape_def encode_def)

lemma reshape_ok:
  "length v = K * d \<Longrightarrow> reshape v K d = Inr (map (\<lambda>k. take d (drop (k * d) v)) [0..<K])"
  by (simp add: reshape_def)

lemma objective_decode_reshape:
  "0 < n_steps s \<Longrightarrow> length v = n_steps s * d \<Longrightarrow>
   objective_decode s v = reshape v (n_steps s) d"
  by (simp add: objective_decode_def)

lemma reshape_tile: "reshape (tile x0 K) K (length x0) = Inr (replicate K x0)"
  using reshape_encode [of "replicate K x0" "length x0"] by (simp add: tile_def encode_def)

section \<open>Encoding, decoding and the initial guess\<close>

text \<open>
  C7. Flattening row by row and reshaping are inverse to each other: a trajectory
  \<open>X\<close> with \<open>K\<close> rows of \<open>d\<close> entries is recovered by reshaping its flattening, and
  a flat vector \<open>v\<close> of length \<open>K * d\<close> reshapes to a trajectory \<open>Y\<close> with \<open>K\<close> rows
  whose flattening is \<open>v\<close> again and whose entry \<open>Y[k][j]\<close> is \<open>v[k * d + j]\<close>.
  For a positive step count, the decoding inside \<^verbatim>\<open>objective_function\<close> is this same
  reshape.
\<close>

theorem encode_decode_roundtrip:
  "(length X = K \<and> (\<forall>r \<in> set X. length r = d) \<longrightarrow> reshape (encode X) K d = Inr X) \<and>
   (length v = K * d \<longrightarrow>
      (\<exists>Y. reshape v K d = Inr Y \<and> encode Y = v \<and> length Y = K \<and>
           (\<forall>k < K. \<forall>j < d. Y ! k ! j = v ! (k * d + j)))) \<and>
   (0 < n_steps s \<and> length v = n_steps s * d \<longrightarrow>
      objective_decode s v = reshape v (n_steps s) d)"
proof (intro conjI impI)
  assume "length X = K \<and> (\<forall>r \<in> set X. length r = d)"
  then show "reshape (encode X) K d = Inr X"
    using reshape_encode [of X d] by auto
next
  assume len: "length v = K * d"
  let ?Y = "map (\<lambda>k. take d (drop (k * d) v)) [0..<K]"
  have 1: "reshape v K d = Inr ?Y" using len by (rule reshape_ok)
  have 2: "encode ?Y = v" using len by (simp add: encode_def concat_rows)
  have 3: "\<forall>k < K. \<forall>j < d. ?Y ! k ! j = v ! (k * d + j)"
    using len by (simp add: reshape_row)
  show "\<exists>Y. reshape v K d = Inr Y \<and> encode Y = v \<and> length Y = K \<and>
           (\<forall>k < K. \<forall>j < d. Y ! k ! j = v ! (k * d + j))"
    using 1 2 3 by (intro exI [of _ ?Y]) simp
next
  assume "0 < n_steps s \<and> length v = n_steps s * d"
  then show "objective_decode s v = reshape v (n_steps s) d"
    by (simp add: objective_decode_reshape)
qed

theorem encode_decode_roundtrip_witness:
  "reshape (encode [[1, 2], [3, 4], [5, 6]]) 3 2 = Inr [[1, 2], [3, 4], [5, 6]] \<and>
   (\<exists>Y. reshape [1, 2, 3, 4, 5, 6] 3 2 = Inr Y \<and> encode Y = [1, 2, 3, 4, 5, 6] \<and>
        length Y = 3 \<and> (\<forall>k < 3. \<forall>j < 2. Y ! k ! j = [1, 2, 3, 4, 5, 6] ! (k * 2 + j))) \<and>
   objective_decode \<lparr>alpha = 0.4, beta = 0.3, gamma = 0.3, T = 3, n_steps = 3, dt = 1\<rparr>
       [1, 2, 3, 4, 5, 6] =
     reshape [1, 2, 3, 4, 5, 6] 3 2"
  using encode_decode_roundtrip [of "[[1, 2], [3, 4], [5, 6]]" 3 2 "[1, 2, 3, 4, 5, 6]"
      "\<lparr>alpha = 0.4, beta = 0.3, gamma = 0.3, T = 3, n_steps = 3, dt = 1\<rparr>"]
  by simp

text \<open>
  C8. The initial guess \<^verbatim>\<open>np.tile(x0, K)\<close> decodes, with \<open>d\<close> the size of \<open>x0\<close>, to a
  trajectory of \<open>K\<close> rows each of which is \<open>x0\<close>; \<^verbatim>\<open>objective_function\<close> decodes it
  to the same trajectory when the instance has \<open>K\<close> steps.
\<close>

theorem replicate_rows:
  assumes "length x0 = d" and "k < K"
  shows "\<exists>X. reshape (tile x0 K) K d = Inr X \<and> length X = K \<and> X ! k = x0 \<and>
           (n_steps s = K \<longrightarrow> objective_decode s (tile x0 K) = Inr X)"
proof -
  have r: "reshape (tile x0 K) K d = Inr (replicate K x0)"
    using assms(1) reshape_tile [of x0 K] by simp
  have len: "length (tile x0 K) = K * d"
    using assms(1) by (simp add: tile_def length_concat_rows [of _ d])
  have "n_steps s = K \<longrightarrow> objective_decode s (tile x0 K) = Inr (replicate K x0)"
    using r len assms(2) objective_decode_reshape [of s "tile x0 K" d] by auto
  with r assms(2) show ?thesis by (intro exI [of _ "replicate K x0"]) simp
qed

theorem replicate_rows_witness:
  "length [50, 60, 40 :: real] = 3 \<and> (1 :: nat) < 2 \<and>
   (\<exists>X. reshape (tile [50, 60, 40] 2) 2 3 = Inr X \<and> length X = 2 \<and> X ! 1 = [50, 60, 40] \<and>
        objective_decode \<lparr>alpha = 0.4, beta = 0.3, gamma = 0.3, T = 2, n_steps = 2, dt = 1\<rparr>
          (tile [50, 60, 40] 2) = Inr X)"
  using replicate_rows [of "[50, 60, 40]" 3 1 2
      "\<lparr>alpha = 0.4, beta = 0.3, gamma = 0.3, T = 2, n_steps = 2, dt = 1\<rparr>"]
  by simp

section \<open>The trapezoidal aggregation\<close>

lemma same_config_refl: "same_config s s"
  by (simp add: same_config_def)

lemma same_config_trans: "same_config s s1 \<Longrightarrow> same_config s1 s2 \<Longrightarrow> same_config s s2"
  by (simp add: same_config_def)

lemma objective_step_constant:
  assumes M: "constant_terms M c" and w: "alpha s + beta s + gamma s = 1"
  shows "\<exists>s'. objective_step M X k (tot, s) =
            Inr (tot + trapezoid_weight (n_steps s) k * c * dt s, s') \<and> same_config s s'"
proof -
  let ?t = "real k * dt s" and ?x = "X ! k"
  from M obtain s1 where e: "efficiency_term M s ?x ?t = Inr (c, s1)" and c1: "same_config s s1"
    unfolding constant_terms_def by blast
  from M obtain s2 where a: "adaptability_term M s1 ?x ?t = Inr (c, s2)" and c2: "same_config s1 s2"
    unfolding constant_terms_def by blast
  from M obtain s3 where g: "collective_efficiency_term M s2 ?x ?t = Inr (c, s3)"
    and c3: "same_config s2 s3"
    unfolding constant_terms_def by blast
  have c13: "same_config s s3" using c1 c2 c3 by (blast intro: same_config_trans)
  have sum: "alpha s * c + beta s1 * c + gamma s2 * c = c"
  proof -
    have "alpha s * c + beta s1 * c + gamma s2 * c = (alpha s + beta s + gamma s) * c"
      using c1 c2 by (simp add: same_config_def algebra_simps)
    then show ?thesis using w by simp
  qed
  have "objective_step M X k (tot, s) =
          Inr (tot + trapezoid_weight (n_steps s3) k * (alpha s * c + beta s1 * c + gamma s2 * c) * dt s3, s3)"
    by (simp add: objective_step_def e a g trapezoid_weight_def)
  then have "objective_step M X k (tot, s) = Inr (tot + trapezoid_weight (n_steps s) k * c * dt s, s3)"
    using c13 sum by (simp add: same_config_def)
  with c13 show ?thesis by blast
qed

lemma objective_loop_constant:
  assumes M: "constant_terms M c"
  shows "alpha s + beta s + gamma s = 1 \<Longrightarrow>
     \<exists>s'. objective_loop M X ks (tot, s) =
            Inr (tot + c * dt s * sum_list (map (trapezoid_weight (n_steps s)) ks), s') \<and>
          same_config s s'"
proof (induction ks arbitrary: tot s)
  case Nil
  then show ?case by (simp add: same_config_refl)
next
  case (Cons k ks)
  from objective_step_constant [OF M Cons.prems, of X k tot]
  obtain s1 where st: "objective_step M X k (tot, s) =
        Inr (tot + trapezoid_weight (n_steps s) k * c * dt s, s1)" and c1: "same_config s s1"
    by blast
  have w1: "alpha s1 + beta s1 + gamma s1 = 1" using c1 Cons.prems by (simp add: same_config_def)
  from Cons.IH [OF w1, of "tot + trapezoid_weight (n_steps s) k * c * dt s"]
  obtain s2 where lp: "objective_loop M X ks (tot + trapezoid_weight (n_steps s) k * c * dt s, s1) =
        Inr (tot + trapezoid_weight (n_steps s) k * c * dt s +
             c * dt s1 * sum_list (map (trapezoid_weight (n_steps s1)) ks), s2)"
    and c2: "same_config s1 s2"
    by blast
  have "objective_loop M X (k # ks) (tot, s) =
        Inr (tot + c * dt s * sum_list (map (trapezoid_weight (n_steps s)) (k # ks)), s2)"
    using st lp c1 by (simp add: same_config_def algebra_simps)
  moreover have "same_config s s2" using c1 c2 by (rule same_config_trans)
  ultimately show ?case by blast
qed

lemma trapezoid_weights_sum:
  assumes "2 \<le> K"
  shows "sum_list (map (trapezoid_weight K) [0..<K]) = real K - 1"
proof -
  from assms obtain m where K: "K = Suc (Suc m)"
    by (metis Suc_le_D numeral_2_eq_2 Suc_le_mono)
  have split: "[0..<K] = 0 # [1..<Suc m] @ [Suc m]"
    unfolding K by (simp add: upt_conv_Cons)
  have inner: "map (trapezoid_weight K) [1..<Suc m] = map (\<lambda>_. 1) [1..<Suc m]"
    by (rule map_cong [OF refl]) (auto simp: trapezoid_weight_def K)
  have mid: "sum_list (map (trapezoid_weight K) [1..<Suc m]) = real m"
    unfolding inner by (simp add: sum_list_triv del: upt_Suc)
  have ends: "trapezoid_weight K 0 = 1 / 2" "trapezoid_weight K (Suc m) = 1 / 2"
    by (simp_all add: trapezoid_weight_def K)
  have "sum_list (map (trapezoid_weight K) (0 # [1..<Suc m] @ [Suc m])) =
        trapezoid_weight K 0 + sum_list (map (trapezoid_weight K) [1..<Suc m]) +
        trapezoid_weight K (Suc m)"
    by (simp del: upt_Suc)
  then show ?thesis
    unfolding split mid ends by (simp add: K)
qed

lemma constant_model_terms: "constant_terms (constant_model c) c"
  by (simp add: constant_terms_def constant_model_def same_config_def)

text \<open>
  C1, as the code has it. For a model whose three terms are the constant \<open>c\<close>, with
  weights adding up to one, \<open>K\<close> steps and a flat vector of length \<open>K * d\<close>:
  \<^verbatim>\<open>objective_function\<close> returns \<open>c * dt * (K - 1)\<close> when \<open>K\<close> is at least two (both
  end points weighted one half, the interior points one). When \<open>K\<close> is one, the only
  sample is an end point weighted one half, and the result is \<open>c * dt / 2\<close>.
\<close>

theorem trapezoid_constant_model:
  assumes "constant_terms M c" and "alpha s + beta s + gamma s = 1"
    and "n_steps s = K" and "length v = K * d"
  shows "(2 \<le> K \<longrightarrow> (\<exists>s'. objective_function M s v = Inr (c * dt s * (real K - 1), s'))) \<and>
         (K = 1 \<longrightarrow> (\<exists>s'. objective_function M s v = Inr (c * dt s / 2, s')))"
proof (intro conjI impI)
  assume K2: "2 \<le> K"
  then have pos: "0 < n_steps s" using assms(3) by simp
  have dec: "objective_decode s v = Inr (map (\<lambda>k. take d (drop (k * d) v)) [0..<K])"
    using objective_decode_reshape [OF pos, of v d] assms(3,4) by (simp add: reshape_ok)
  from objective_loop_constant [OF assms(1,2), of "map (\<lambda>k. take d (drop (k * d) v)) [0..<K]" "[0..<K]" 0]
  obtain s' where "objective_loop M (map (\<lambda>k. take d (drop (k * d) v)) [0..<K]) [0..<K] (0, s) =
      Inr (0 + c * dt s * sum_list (map (trapezoid_weight (n_steps s)) [0..<K]), s')"
    by blast
  then have "objective_function M s v = Inr (c * dt s * (real K - 1), s')"
    using dec assms(3) trapezoid_weights_sum [OF K2] by (simp add: objective_function_def)
  then show "\<exists>s'. objective_function M s v = Inr (c * dt s * (real K - 1), s')" ..
next
  assume K1: "K = 1"
  then have pos: "0 < n_steps s" using assms(3) by simp
  have dec: "objective_decode s v = Inr (map (\<lambda>k. take d (drop (k * d) v)) [0..<K])"
    using objective_decode_reshape [OF pos, of v d] assms(3,4) by (simp add: reshape_ok)
  from objective_loop_constant [OF assms(1,2), of "map (\<lambda>k. take d (drop (k * d) v)) [0..<K]" "[0..<K]" 0]
  obtain s' where "objective_loop M (map (\<lambda>k. take d (drop (k * d) v)) [0..<K]) [0..<K] (0, s) =
      Inr (0 + c * dt s * sum_list (map (trapezoid_weight (n_steps s)) [0..<K]), s')"
    by blast
  then have "objective_function M s v = Inr (c * dt s / 2, s')"
    using dec assms(3) K1 by (simp add: objective_function_def trapezoid_weight_def)
  then show "\<exists>s'. objective_function M s v = Inr (c * dt s / 2, s')" ..
qed

theorem trapezoid_constant_model_witness:
  "constant_terms (constant_model 2 :: unit methods) 2 \<and>
   (\<exists>s'. objective_function (constant_model 2)
           \<lparr>alpha = 0.4, beta = 0.3, gamma = 0.3, T = 6, n_steps = 3, dt = 6 / 3\<rparr>
           [1, 2, 3, 4, 5, 6] = Inr (8, s'))"
proof -
  have h: "constant_terms (constant_model 2 :: unit methods) 2"
    by (rule constant_model_terms)
  show ?thesis
    using h trapezoid_constant_model [OF h,
        of "\<lparr>alpha = 0.4, beta = 0.3, gamma = 0.3, T = 6, n_steps = 3, dt = 6 / 3\<rparr>" 3
           "[1, 2, 3, 4, 5, 6]" 2]
    by simp
qed

text \<open>
  The claim as stated includes \<open>K = 1\<close>, where it promises \<open>c * dt * 0 = 0\<close>: with
  \<open>c = 1\<close>, horizon one and the default weights the code returns one half.
\<close>

theorem trapezoid_single_step_counterexample:
  "alpha \<lparr>alpha = 0.4, beta = 0.3, gamma = 0.3, T = 1, n_steps = 1, dt = 1 / 1\<rparr> +
   beta \<lparr>alpha = 0.4, beta = 0.3, gamma = 0.3, T = 1, n_steps = 1, dt = 1 / 1\<rparr> +
   gamma \<lparr>alpha = 0.4, beta = 0.3, gamma = 0.3, T = 1, n_steps = 1, dt = 1 / 1\<rparr> = 1 \<and>
   objective_function (constant_model 1)
     \<lparr>alpha = 0.4, beta = 0.3, gamma = 0.3, T = 1, n_steps = 1, dt = 1 / 1\<rparr> [7] =
     Inr (1 / 2, \<lparr>alpha = 0.4, beta = 0.3, gamma = 0.3, T = 1, n_steps = 1, dt = 1 / 1\<rparr>) \<and>
   (1 / 2 :: real) \<noteq> 1 * (1 / 1) * (real 1 - 1)"
  by (simp add: objective_function_def objective_decode_def reshape_def objective_step_def
      constant_model_def)

section \<open>Shape checking when decoding\<close>

lemma upt_0_2: "[0..<2] = [0, Suc 0]"
  by (simp add: numeral_2_eq_2)

lemma reshape_fail: "length v \<noteq> K * d \<Longrightarrow> reshape v K d = Inl ValueError"
  by (auto simp: reshape_def)

lemma objective_decode_indivisible:
  assumes "0 < n_steps s" and "length v mod n_steps s \<noteq> 0"
  shows "objective_decode s v = Inl ValueError"
proof -
  have "n_steps s * (length v div n_steps s) \<noteq> length v"
    using assms(2) by (metis mod_mult_self1_is_0)
  then show ?thesis using assms(1) by (simp add: objective_decode_def reshape_def)
qed

lemma objective_decode_divisible:
  assumes "0 < n_steps s" and "length v mod n_steps s = 0"
  shows "objective_decode s v =
           Inr (map (\<lambda>k. take (length v div n_steps s) (drop (k * (length v div n_steps s)) v))
                  [0..<n_steps s])"
proof -
  from assms(2) have "n_steps s dvd length v" by (simp add: dvd_eq_mod_eq_0)
  then have "length v = n_steps s * (length v div n_steps s)" by simp
  then show ?thesis
    using assms(1) objective_decode_reshape [of s v "length v div n_steps s"]
      reshape_ok [of v "n_steps s" "length v div n_steps s"]
    by simp
qed

text \<open>
  C2, as the code has it. The closure \<^verbatim>\<open>path_constraints\<close> reshapes to \<open>K\<close> rows of
  \<open>n\<close> entries, \<open>n\<close> the size of \<open>x0\<close>, and raises ValueError for every vector whose
  length is not \<open>K * n\<close>. \<^verbatim>\<open>objective_function\<close> takes the floor quotient of the
  length by \<open>K\<close> as the state dimension: it raises ValueError when the length is not
  a multiple of \<open>K\<close>, and decodes every other vector into \<open>K\<close> rows of that many
  entries which, written one after another, are the vector again (nothing is dropped
  or added).
\<close>

theorem decode_shape_check:
  "(length v \<noteq> n_steps s * n \<longrightarrow>
      reshape v (n_steps s) n = Inl ValueError \<and> path_constraints M n s v = Inl ValueError) \<and>
   (0 < n_steps s \<and> length v mod n_steps s \<noteq> 0 \<longrightarrow>
      objective_decode s v = Inl ValueError \<and> objective_function M s v = Inl ValueError) \<and>
   (0 < n_steps s \<and> length v mod n_steps s = 0 \<longrightarrow>
      (\<exists>X. objective_decode s v = Inr X \<and> length X = n_steps s \<and>
           (\<forall>r \<in> set X. length r = length v div n_steps s) \<and> concat X = v))"
proof (intro conjI impI)
  assume "length v \<noteq> n_steps s * n"
  then show r: "reshape v (n_steps s) n = Inl ValueError"
    by (rule reshape_fail)
  show "path_constraints M n s v = Inl ValueError"
    using r by (simp add: path_constraints_def)
next
  assume a: "0 < n_steps s \<and> length v mod n_steps s \<noteq> 0"
  then show "objective_decode s v = Inl ValueError"
    by (simp add: objective_decode_indivisible)
next
  assume a: "0 < n_steps s \<and> length v mod n_steps s \<noteq> 0"
  then have "objective_decode s v = Inl ValueError"
    by (simp add: objective_decode_indivisible)
  then show "objective_function M s v = Inl ValueError"
    by (simp add: objective_function_def)
next
  assume a: "0 < n_steps s \<and> length v mod n_steps s = 0"
  let ?d = "length v div n_steps s"
  let ?X = "map (\<lambda>k. take ?d (drop (k * ?d) v)) [0..<n_steps s]"
  from a have "n_steps s dvd length v" by (simp add: dvd_eq_mod_eq_0)
  then have len: "n_steps s * ?d = length v" by simp
  have 1: "objective_decode s v = Inr ?X" using a by (simp add: objective_decode_divisible)
  have 2: "concat ?X = v" using len by (intro concat_rows) simp
  have 3: "\<forall>r \<in> set ?X. length r = ?d"
  proof
    fix r assume "r \<in> set ?X"
    then obtain k where k: "k < n_steps s" and r: "r = take ?d (drop (k * ?d) v)" by auto
    from k have "Suc k \<le> n_steps s" by simp
    then have "Suc k * ?d \<le> n_steps s * ?d" by (rule mult_le_mono1)
    then have "k * ?d + ?d \<le> length v" using len by simp
    then show "length r = ?d" using r by simp
  qed
  show "\<exists>X. objective_decode s v = Inr X \<and> length X = n_steps s \<and>
           (\<forall>r \<in> set X. length r = length v div n_steps s) \<and> concat X = v"
  proof (intro exI [of _ ?X] conjI)
    show "length ?X = n_steps s" by simp
  qed (rule 1 3 2)+
qed

theorem decode_shape_check_witness:
  "reshape [1, 2, 3] (n_steps one_node) 2 = Inl ValueError \<and>
   path_constraints EnergyERCRD_methods 2 one_node [1, 2, 3] = Inl ValueError \<and>
   objective_decode one_node [1, 2, 3] = Inl ValueError \<and>
   objective_function EnergyERCRD_methods one_node [1, 2, 3] = Inl ValueError \<and>
   (\<exists>X. objective_decode one_node [1, 2, 3, 4, 5, 6] = Inr X \<and> length X = n_steps one_node \<and>
        (\<forall>r \<in> set X. length r = length [1, 2, 3, 4, 5, 6 :: real] div n_steps one_node) \<and>
        concat X = [1, 2, 3, 4, 5, 6])"
proof -
  have n: "n_steps one_node = 2" by (simp add: one_node_def)
  have a: "length [1, 2, 3 :: real] \<noteq> n_steps one_node * 2"
    and b: "0 < n_steps one_node \<and> length [1, 2, 3 :: real] mod n_steps one_node \<noteq> 0"
    and c: "0 < n_steps one_node \<and> length [1, 2, 3, 4, 5, 6 :: real] mod n_steps one_node = 0"
    by (simp_all add: n)
  show ?thesis
    using decode_shape_check [of "[1, 2, 3]" one_node 2 EnergyERCRD_methods] a b
      decode_shape_check [of "[1, 2, 3, 4, 5, 6]" one_node 2 EnergyERCRD_methods] c
    by blast
qed

text \<open>
  The claim as stated fails for \<^verbatim>\<open>objective_function\<close>: on the one-node energy
  instance (two steps, states of two entries) a vector of six entries is not refused
  but decoded into two rows of three entries, and a cost is returned.
\<close>

theorem objective_decode_other_dimension_counterexample:
  "length [0, 0, 0, 1, 0, 0 :: real] \<noteq> n_steps one_node * (2 * num_nodes one_node) \<and>
   objective_decode one_node [0, 0, 0, 1, 0, 0] = Inr [[0, 0, 0], [1, 0, 0]] \<and>
   objective_function EnergyERCRD_methods one_node [0, 0, 0, 1, 0, 0] =
     Inr (83 / 20, one_node\<lparr>prev_P := Some [1]\<rparr>)"
  by (simp add: one_node_def objective_function_def objective_decode_def reshape_def
      objective_step_def EnergyERCRD_methods_def EnergyERCRD_efficiency_term_def
      EnergyERCRD_adaptability_term_def EnergyERCRD_collective_efficiency_term_def
      np_sub_def np_index2_def upt_0_2)

section \<open>The adaptability memo\<close>

lemma sum_list_zip_nth:
  "length A = length B \<Longrightarrow>
   sum_list (map f (zip A B)) = (\<Sum>i < length A. f (A ! i, B ! i))"
proof -
  assume len: "length A = length B"
  have "sum_list (map f (zip A B)) = (\<Sum>i = 0..<length (map f (zip A B)). map f (zip A B) ! i)"
    by (rule sum_list_sum_nth)
  also have "\<dots> = (\<Sum>i = 0..<length A. f (A ! i, B ! i))"
    using len by (intro sum.cong) simp_all
  finally show ?thesis by (simp add: atLeast0LessThan)
qed

lemma np_sub_same_length:
  "length a = length b \<Longrightarrow> np_sub a b = Inr (map (\<lambda>(u, v). u - v) (zip a b))"
  by (simp add: np_sub_def)

lemma adaptability_fresh:
  "prev_P s = None \<Longrightarrow>
   EnergyERCRD_adaptability_term s x t = Inr (0, s\<lparr>prev_P := Some (take (num_nodes s) x)\<rparr>)"
  by (simp add: EnergyERCRD_adaptability_term_def)

lemma adaptability_second:
  assumes "prev_P s = Some (take (num_nodes s) x1)" and "length x1 = length x2"
  shows "EnergyERCRD_adaptability_term s x2 t =
           Inr (\<Sum>i < min (num_nodes s) (length x2). (x2 ! i - x1 ! i)\<^sup>2,
                s\<lparr>prev_P := Some (take (num_nodes s) x2)\<rparr>)"
proof -
  let ?n = "num_nodes s"
  let ?A = "take ?n x2" and ?B = "take ?n x1"
  have len: "length ?A = length ?B" using assms(2) by simp
  have "sum_list (map (\<lambda>v. v\<^sup>2) (map (\<lambda>(u, v). u - v) (zip ?A ?B))) =
        sum_list (map (\<lambda>p. (fst p - snd p)\<^sup>2) (zip ?A ?B))"
    by (simp add: case_prod_unfold comp_def)
  also have "\<dots> = (\<Sum>i < length ?A. (?A ! i - ?B ! i)\<^sup>2)"
    using sum_list_zip_nth [OF len, of "\<lambda>p. (fst p - snd p)\<^sup>2"] by simp
  also have "\<dots> = (\<Sum>i < min ?n (length x2). (x2 ! i - x1 ! i)\<^sup>2)"
    by (intro sum.cong) (simp_all add: min.commute)
  finally have val: "sum_list (map (\<lambda>v. v\<^sup>2) (map (\<lambda>(u, v). u - v) (zip ?A ?B))) =
        (\<Sum>i < min ?n (length x2). (x2 ! i - x1 ! i)\<^sup>2)" .
  show ?thesis
    unfolding EnergyERCRD_adaptability_term_def Let_def assms(1) option.case
      np_sub_same_length [OF len] sum.case val
    by simp
qed

lemma adaptability_memo_steps:
  assumes "prev_P s = None"
  shows "EnergyERCRD_adaptability_term s x1 t1 =
           Inr (0, s\<lparr>prev_P := Some (take (num_nodes s) x1)\<rparr>) \<and>
         (length x1 = length x2 \<longrightarrow>
          EnergyERCRD_adaptability_term (s\<lparr>prev_P := Some (take (num_nodes s) x1)\<rparr>) x2 t2 =
            Inr (\<Sum>i < min (num_nodes s) (length x2). (x2 ! i - x1 ! i)\<^sup>2,
                 s\<lparr>prev_P := Some (take (num_nodes s) x2)\<rparr>))"
proof (intro conjI impI)
  show "EnergyERCRD_adaptability_term s x1 t1 =
           Inr (0, s\<lparr>prev_P := Some (take (num_nodes s) x1)\<rparr>)"
    using assms by (rule adaptability_fresh)
next
  assume len: "length x1 = length x2"
  let ?s1 = "s\<lparr>prev_P := Some (take (num_nodes s) x1)\<rparr>"
  have p: "prev_P ?s1 = Some (take (num_nodes ?s1) x1)" by simp
  from adaptability_second [OF p len, of t2]
  show "EnergyERCRD_adaptability_term ?s1 x2 t2 =
            Inr (\<Sum>i < min (num_nodes s) (length x2). (x2 ! i - x1 ! i)\<^sup>2,
                 s\<lparr>prev_P := Some (take (num_nodes s) x2)\<rparr>)"
    by simp
qed

lemma EnergyERCRD_init_fresh:
  "EnergyERCRD_init n B costs a b g th K = Inr s \<Longrightarrow> prev_P s = None \<and> num_nodes s = n"
  by (auto simp: EnergyERCRD_init_def ERCRDOptimizer_init_def split: if_splits)

lemma one_node_init: "EnergyERCRD_init 1 [[0]] [(0, 0, 10)] 0.4 0.3 0.3 2 2 = Inr one_node"
  by (simp add: EnergyERCRD_init_def ERCRDOptimizer_init_def one_node_def)

text \<open>
  C3. On an instance as \<^verbatim>\<open>EnergyERCRD.__init__\<close> returns it, the first call of
  \<^verbatim>\<open>adaptability_term\<close> returns zero for every input \<open>x1\<close> and remembers the first
  \<open>num_nodes\<close> entries of \<open>x1\<close>; a second call, on a state \<open>x2\<close> of the same size,
  returns the sum of \<open>(x2[i] - x1[i])\<^sup>2\<close> over the tracked entries (those below
  \<open>num_nodes\<close>).
\<close>

theorem adaptability_memo:
  assumes "EnergyERCRD_init n B costs a b g th K = Inr s"
  shows "EnergyERCRD_adaptability_term s x1 t1 = Inr (0, s\<lparr>prev_P := Some (take n x1)\<rparr>) \<and>
         (length x1 = length x2 \<longrightarrow>
          EnergyERCRD_adaptability_term (s\<lparr>prev_P := Some (take n x1)\<rparr>) x2 t2 =
            Inr (\<Sum>i < min n (length x2). (x2 ! i - x1 ! i)\<^sup>2,
                 s\<lparr>prev_P := Some (take n x2)\<rparr>))"
proof -
  from EnergyERCRD_init_fresh [OF assms] have f: "prev_P s = None" and n: "num_nodes s = n"
    by simp_all
  from adaptability_memo_steps [OF f, of x1 t1 x2 t2] show ?thesis
    unfolding n .
qed

theorem adaptability_memo_witness:
  "EnergyERCRD_init 1 [[0]] [(0, 0, 10)] 0.4 0.3 0.3 2 2 = Inr one_node \<and>
   EnergyERCRD_adaptability_term one_node [3, 7] 0 = Inr (0, one_node\<lparr>prev_P := Some [3]\<rparr>) \<and>
   EnergyERCRD_adaptability_term (one_node\<lparr>prev_P := Some [3]\<rparr>) [5, 9] 0 =
     Inr (4, one_node\<lparr>prev_P := Some [5]\<rparr>)"
  using one_node_init adaptability_memo [OF one_node_init, of "[3, 7]" 0 "[5, 9]" 0]
  by simp

section \<open>Frame of the energy model\<close>

lemma constraints_nodes_closed:
  "\<forall>i \<in> set is. i < length costs \<and> i < length P \<Longrightarrow>
   constraints_nodes costs P is acc =
     Inr (acc @ concat (map (\<lambda>i. [P ! i - snd (snd (costs ! i)), - (P ! i)]) is))"
  by (induction "is" arbitrary: acc) (simp_all add: Let_def)

lemma constraints_nodes_length:
  "constraints_nodes costs P is acc = Inr r \<Longrightarrow> length r = length acc + 2 * length is"
  by (induction "is" arbitrary: acc) (auto simp: Let_def split: if_splits)

lemma constraints_closed:
  assumes "well_formed s x"
  shows "EnergyERCRD_constraints s x t =
     Inr (residuals s x, s)"
proof -
  let ?n = "num_nodes s" and ?P = "take (num_nodes s) x"
  have idx: "\<forall>i \<in> set [0..<?n]. i < length (generator_costs s) \<and> i < length ?P"
    using assms by (simp add: well_formed_def)
  have m: "map (\<lambda>i. [?P ! i - snd (snd (generator_costs s ! i)), - (?P ! i)]) [0..<?n] =
           map (\<lambda>i. [x ! i - max_capacity s i, - (x ! i)]) [0..<?n]"
    by (rule map_cong [OF refl]) (simp add: max_capacity_def)
  have ne: "generator_costs s \<noteq> []" using assms by (simp add: well_formed_def)
  show ?thesis
    unfolding EnergyERCRD_constraints_def Let_def constraints_nodes_closed [OF idx] m
    using ne by (simp add: budget_def residuals_def)
qed

lemma efficiency_frame: "EnergyERCRD_efficiency_term s x t = Inr (v, s') \<Longrightarrow> s' = s"
  by (auto simp: EnergyERCRD_efficiency_term_def Let_def split: sum.splits)

lemma collective_frame: "EnergyERCRD_collective_efficiency_term s x t = Inr (v, s') \<Longrightarrow> s' = s"
  by (auto simp: EnergyERCRD_collective_efficiency_term_def Let_def split: sum.splits)

lemma constraints_frame:
  "EnergyERCRD_constraints s x t = Inr (r, s') \<Longrightarrow> s' = s \<and> length r = 2 * num_nodes s + 1"
  by (auto simp: EnergyERCRD_constraints_def Let_def
      split: sum.splits if_splits dest: constraints_nodes_length)

lemma adaptability_frame:
  "EnergyERCRD_adaptability_term s x t = Inr (v, s') \<Longrightarrow>
   s' = s\<lparr>prev_P := Some (take (num_nodes s) x)\<rparr>"
  by (auto simp: EnergyERCRD_adaptability_term_def Let_def split: sum.splits option.splits)

lemma one_node_facts:
  "num_nodes one_node = 1" "generator_costs one_node = [(0, 0, 10)]"
  "line_params one_node = [[0]]" "prev_P one_node = None" "n_steps one_node = 2"
  "dt one_node = 1" "alpha one_node = 0.4" "beta one_node = 0.3" "gamma one_node = 0.3"
  by (simp_all add: one_node_def)

lemma one_node_residuals: "residuals one_node (p # rest) = [p - 8, p - 10, - p]"
  by (simp add: residuals_def budget_def max_capacity_def one_node_facts)

lemma one_node_well_formed: "well_formed one_node (p # rest)"
  by (simp add: well_formed_def one_node_facts)

text \<open>
  C10. In the energy model \<^verbatim>\<open>efficiency_term\<close>, \<^verbatim>\<open>collective_efficiency_term\<close> and
  \<^verbatim>\<open>constraints\<close> give the same outcome at any two times and return the instance as
  they got it; the vector \<^verbatim>\<open>constraints\<close> returns has \<open>2 * num_nodes + 1\<close> entries,
  and it does return one on every well-formed input. \<^verbatim>\<open>adaptability_term\<close> is the
  one method that changes the instance: afterwards \<^verbatim>\<open>prev_P\<close> holds the first
  \<open>num_nodes\<close> entries of its argument, and nothing else has changed.
\<close>

theorem energy_frame:
  "EnergyERCRD_efficiency_term s x t1 = EnergyERCRD_efficiency_term s x t2 \<and>
   EnergyERCRD_collective_efficiency_term s x t1 = EnergyERCRD_collective_efficiency_term s x t2 \<and>
   EnergyERCRD_constraints s x t1 = EnergyERCRD_constraints s x t2 \<and>
   (EnergyERCRD_efficiency_term s x t1 = Inr (ve, se) \<longrightarrow> se = s) \<and>
   (EnergyERCRD_collective_efficiency_term s x t1 = Inr (vc, sc) \<longrightarrow> sc = s) \<and>
   (EnergyERCRD_constraints s x t1 = Inr (r, sr) \<longrightarrow> sr = s \<and> length r = 2 * num_nodes s + 1) \<and>
   (well_formed s x \<longrightarrow> (\<exists>r'. EnergyERCRD_constraints s x t1 = Inr (r', s))) \<and>
   (EnergyERCRD_adaptability_term s x t1 = Inr (va, sa) \<longrightarrow>
      sa = s\<lparr>prev_P := Some (take (num_nodes s) x)\<rparr>)"
proof (intro conjI impI)
  show "EnergyERCRD_efficiency_term s x t1 = EnergyERCRD_efficiency_term s x t2"
    by (simp add: EnergyERCRD_efficiency_term_def)
  show "EnergyERCRD_collective_efficiency_term s x t1 =
        EnergyERCRD_collective_efficiency_term s x t2"
    by (simp add: EnergyERCRD_collective_efficiency_term_def)
  show "EnergyERCRD_constraints s x t1 = EnergyERCRD_constraints s x t2"
    by (simp add: EnergyERCRD_constraints_def)
next
  assume "EnergyERCRD_efficiency_term s x t1 = Inr (ve, se)"
  then show "se = s" by (rule efficiency_frame)
next
  assume "EnergyERCRD_collective_efficiency_term s x t1 = Inr (vc, sc)"
  then show "sc = s" by (rule collective_frame)
next
  assume c: "EnergyERCRD_constraints s x t1 = Inr (r, sr)"
  from constraints_frame [OF c] show "sr = s" by simp
  from constraints_frame [OF c] show "length r = 2 * num_nodes s + 1" by simp
next
  assume "well_formed s x"
  then show "\<exists>r'. EnergyERCRD_constraints s x t1 = Inr (r', s)"
    by (simp add: constraints_closed)
next
  assume "EnergyERCRD_adaptability_term s x t1 = Inr (va, sa)"
  then show "sa = s\<lparr>prev_P := Some (take (num_nodes s) x)\<rparr>"
    by (rule adaptability_frame)
qed

theorem energy_frame_witness:
  "EnergyERCRD_efficiency_term one_node [3, 7] 0 = Inr (10, one_node) \<and>
   EnergyERCRD_efficiency_term one_node [3, 7] 5 = Inr (10, one_node) \<and>
   EnergyERCRD_collective_efficiency_term one_node [3, 7] 0 = Inr (0, one_node) \<and>
   EnergyERCRD_collective_efficiency_term one_node [3, 7] 5 = Inr (0, one_node) \<and>
   EnergyERCRD_constraints one_node [3, 7] 0 = Inr ([- 5, - 7, - 3], one_node) \<and>
   EnergyERCRD_constraints one_node [3, 7] 5 = Inr ([- 5, - 7, - 3], one_node) \<and>
   length [- 5, - 7, - 3 :: real] = 2 * num_nodes one_node + 1 \<and>
   well_formed one_node [3, 7] \<and>
   EnergyERCRD_adaptability_term one_node [3, 7] 0 = Inr (0, one_node\<lparr>prev_P := Some [3]\<rparr>)"
proof -
  have e: "EnergyERCRD_efficiency_term one_node [3, 7] 0 = Inr (10, one_node)"
    by (simp add: EnergyERCRD_efficiency_term_def one_node_facts)
  have c: "EnergyERCRD_collective_efficiency_term one_node [3, 7] 0 = Inr (0, one_node)"
    by (simp add: EnergyERCRD_collective_efficiency_term_def one_node_facts)
  have w: "well_formed one_node [3, 7]" by (rule one_node_well_formed)
  have g: "EnergyERCRD_constraints one_node [3, 7] 0 = Inr ([- 5, - 7, - 3], one_node)"
    using constraints_closed [OF w, of 0] by (simp add: one_node_residuals)
  have a: "EnergyERCRD_adaptability_term one_node [3, 7] 0 =
             Inr (0, one_node\<lparr>prev_P := Some [3]\<rparr>)"
    by (simp add: EnergyERCRD_adaptability_term_def one_node_facts)
  show ?thesis
    using energy_frame [of one_node "[3, 7]" 0 5 10 one_node 0 one_node "[- 5, - 7, - 3]" one_node
        0 "one_node\<lparr>prev_P := Some [3]\<rparr>"] e c w g a
    by (simp add: one_node_facts)
qed

section \<open>Sign convention of the constraints\<close>

lemma residuals_upper_member:
  "i < num_nodes s \<Longrightarrow> x ! i - max_capacity s i \<in> set (residuals s x)"
  by (auto simp: residuals_def)

lemma residuals_feasible:
  assumes "feasible s x" and "v \<in> set (residuals s x)"
  shows "v \<le> 0"
proof -
  from assms(2) consider "v = sum_list (take (num_nodes s) x) - budget s"
    | i where "i < num_nodes s" "v = x ! i - max_capacity s i"
    | i where "i < num_nodes s" "v = - (x ! i)"
    by (auto simp: residuals_def)
  then show ?thesis
  proof cases
    case 1
    then show ?thesis using assms(1) by (simp add: feasible_def)
  next
    case 2
    then show ?thesis using assms(1) by (simp add: feasible_def)
  next
    case 3
    then show ?thesis using assms(1) by (simp add: feasible_def)
  qed
qed

lemma ineq_fun_negates:
  "path_constraints M n s flat = Inr (r, s1) \<Longrightarrow> ineq_fun M n s flat = Inr (map uminus r, s1)"
  by (simp add: ineq_fun_def)

lemma ineq_fun_raises:
  "path_constraints M n s flat = Inl e \<Longrightarrow> ineq_fun M n s flat = Inl e"
  by (simp add: ineq_fun_def)

lemma constraints_loop_energy:
  "\<forall>k \<in> set ks. well_formed s (X ! k) \<Longrightarrow>
   constraints_loop EnergyERCRD_methods X ks (acc, s) =
     Inr (acc @ concat (map (\<lambda>k. residuals s (X ! k)) ks), s)"
proof (induction ks arbitrary: acc)
  case Nil
  then show ?case by simp
next
  case (Cons k ks)
  then have w: "well_formed s (X ! k)" and rest: "\<forall>k \<in> set ks. well_formed s (X ! k)"
    by simp_all
  have "constraints_step EnergyERCRD_methods X k (acc, s) = Inr (acc @ residuals s (X ! k), s)"
    by (simp add: constraints_step_def EnergyERCRD_methods_def constraints_closed [OF w])
  then show ?case using Cons.IH [OF rest, of "acc @ residuals s (X ! k)"] by simp
qed

lemma reshape_length: "reshape flat K n = Inr X \<Longrightarrow> length X = K"
  by (auto simp: reshape_def split: if_splits)

lemma path_constraints_stacked:
  assumes "reshape flat (n_steps s) n = Inr X" and "\<forall>row \<in> set X. well_formed s row"
  shows "path_constraints EnergyERCRD_methods n s flat = Inr (concat (map (residuals s) X), s)"
proof -
  have len: "length X = n_steps s" using assms(1) by (rule reshape_length)
  have w: "\<forall>k \<in> set [0..<n_steps s]. well_formed s (X ! k)"
    using assms(2) len by simp
  have "map (\<lambda>k. residuals s (X ! k)) [0..<length X] = map (residuals s) X"
    by (rule nth_equalityI) simp_all
  then have m: "map (\<lambda>k. residuals s (X ! k)) [0..<n_steps s] = map (residuals s) X"
    using len by simp
  show ?thesis
    using constraints_loop_energy [OF w, of "[]"] m
    by (simp add: path_constraints_def assms(1))
qed

text \<open>
  C4. On a well-formed input: when some tracked entry \<open>x[i]\<close> exceeds the declared
  capacity of node \<open>i\<close>, the vector \<^verbatim>\<open>constraints\<close> returns has a strictly positive
  entry; when the state is feasible (every tracked entry between zero and its
  capacity, their sum within the budget), every entry is at most zero. The one
  constraint group \<^verbatim>\<open>optimize\<close> hands to the solver is tagged \<open>ineq\<close> and its
  function is the entrywise negation of \<^verbatim>\<open>path_constraints\<close>, so its entries are all
  non-negative exactly when all stacked residuals are at most zero; an exception of
  \<^verbatim>\<open>path_constraints\<close> passes through. For the energy model the stacked vector is
  the residual vectors of the rows of the decoded trajectory, one after another in
  the order of the steps.
\<close>

theorem constraint_signs:
  "(well_formed s x \<and> i < num_nodes s \<and> max_capacity s i < x ! i \<longrightarrow>
      (\<exists>r. EnergyERCRD_constraints s x t = Inr (r, s) \<and> (\<exists>v \<in> set r. 0 < v))) \<and>
   (well_formed s x \<and> feasible s x \<longrightarrow>
      (\<exists>r. EnergyERCRD_constraints s x t = Inr (r, s) \<and> (\<forall>v \<in> set r. v \<le> 0))) \<and>
   arg_constraints (minimize_call M s0 x0 method max_iter) = [(''ineq'', ineq_fun M (length x0))] \<and>
   (path_constraints M n s0 flat = Inr (g, s1) \<longrightarrow>
      ineq_fun M n s0 flat = Inr (map uminus g, s1) \<and>
      ((\<forall>v \<in> set (map uminus g). 0 \<le> v) \<longleftrightarrow> (\<forall>v \<in> set g. v \<le> 0))) \<and>
   (path_constraints M n s0 flat = Inl e \<longrightarrow> ineq_fun M n s0 flat = Inl e) \<and>
   (reshape v (n_steps s) d = Inr X \<and> (\<forall>row \<in> set X. well_formed s row) \<longrightarrow>
      path_constraints EnergyERCRD_methods d s v = Inr (concat (map (residuals s) X), s))"
proof (intro conjI impI)
  assume a: "well_formed s x \<and> i < num_nodes s \<and> max_capacity s i < x ! i"
  then have "EnergyERCRD_constraints s x t = Inr (residuals s x, s)"
    by (simp add: constraints_closed)
  moreover have "x ! i - max_capacity s i \<in> set (residuals s x)"
    using a by (simp add: residuals_upper_member)
  moreover have "0 < x ! i - max_capacity s i" using a by simp
  ultimately show "\<exists>r. EnergyERCRD_constraints s x t = Inr (r, s) \<and> (\<exists>v \<in> set r. 0 < v)"
    by blast
next
  assume a: "well_formed s x \<and> feasible s x"
  then have "EnergyERCRD_constraints s x t = Inr (residuals s x, s)"
    by (simp add: constraints_closed)
  moreover have "\<forall>v \<in> set (residuals s x). v \<le> 0"
    using a residuals_feasible by blast
  ultimately show "\<exists>r. EnergyERCRD_constraints s x t = Inr (r, s) \<and> (\<forall>v \<in> set r. v \<le> 0)"
    by blast
next
  show "arg_constraints (minimize_call M s0 x0 method max_iter) =
        [(''ineq'', ineq_fun M (length x0))]"
    by (simp add: minimize_call_def Let_def)
next
  assume "path_constraints M n s0 flat = Inr (g, s1)"
  then show "ineq_fun M n s0 flat = Inr (map uminus g, s1)"
    by (rule ineq_fun_negates)
next
  show "(\<forall>v \<in> set (map uminus g). 0 \<le> v) \<longleftrightarrow> (\<forall>v \<in> set g. v \<le> 0)"
    by simp
next
  assume "path_constraints M n s0 flat = Inl e"
  then show "ineq_fun M n s0 flat = Inl e"
    by (rule ineq_fun_raises)
next
  assume "reshape v (n_steps s) d = Inr X \<and> (\<forall>row \<in> set X. well_formed s row)"
  then show "path_constraints EnergyERCRD_methods d s v = Inr (concat (map (residuals s) X), s)"
    by (simp add: path_constraints_stacked)
qed

lemma one_node_path_constraints:
  "path_constraints EnergyERCRD_methods 2 one_node [5, 0, 5, 0] =
     Inr ([- 3, - 5, - 5, - 3, - 5, - 5], one_node)"
proof -
  have c: "\<And>p q t. EnergyERCRD_constraints one_node [p, q] t = Inr ([p - 8, p - 10, - p], one_node)"
    using constraints_closed [OF one_node_well_formed] by (simp add: one_node_residuals)
  show ?thesis
    by (simp add: path_constraints_def reshape_def one_node_facts upt_0_2 constraints_step_def
        EnergyERCRD_methods_def c)
qed

theorem constraint_signs_witness:
  "well_formed one_node [11, 0] \<and> (0 :: nat) < num_nodes one_node \<and>
   max_capacity one_node 0 < [11, 0] ! 0 \<and>
   (\<exists>r. EnergyERCRD_constraints one_node [11, 0] 0 = Inr (r, one_node) \<and> (\<exists>v \<in> set r. 0 < v)) \<and>
   well_formed one_node [5, 0] \<and> feasible one_node [5, 0] \<and>
   (\<exists>r. EnergyERCRD_constraints one_node [5, 0] 0 = Inr (r, one_node) \<and> (\<forall>v \<in> set r. v \<le> 0)) \<and>
   path_constraints EnergyERCRD_methods 2 one_node [5, 0, 5, 0] =
     Inr ([- 3, - 5, - 5, - 3, - 5, - 5], one_node) \<and>
   ineq_fun EnergyERCRD_methods 2 one_node [5, 0, 5, 0] = Inr ([3, 5, 5, 3, 5, 5], one_node) \<and>
   reshape [5, 0, 5, 0] (n_steps one_node) 2 = Inr [[5, 0], [5, 0]] \<and>
   concat (map (residuals one_node) [[5, 0], [5, 0]]) = [- 3, - 5, - 5, - 3, - 5, - 5]"
proof -
  have w: "well_formed one_node [11, 0]" "well_formed one_node [5, 0]"
    by (rule one_node_well_formed)+
  have r: "reshape [5, 0, 5, 0] (n_steps one_node) 2 = Inr [[5, 0], [5, 0]]"
    by (simp add: reshape_def one_node_facts upt_0_2)
  have i: "(0 :: nat) < num_nodes one_node" "max_capacity one_node 0 < [11, 0] ! 0"
    by (simp_all add: one_node_facts max_capacity_def)
  have f: "feasible one_node [5, 0]"
    by (simp add: feasible_def one_node_facts max_capacity_def budget_def)
  show ?thesis
    using w i f r one_node_path_constraints
      constraint_signs [of one_node "[11, 0]" 0 0 EnergyERCRD_methods one_node "[]" "''SLSQP''" 1000
        2 "[5, 0, 5, 0]" "[- 3, - 5, - 5, - 3, - 5, - 5]" one_node ValueError
        "[5, 0, 5, 0]" 2 "[[5, 0], [5, 0]]"]
      constraint_signs [of one_node "[5, 0]" 0 0 EnergyERCRD_methods one_node "[]" "''SLSQP''" 1000
        2 "[5, 0, 5, 0]" "[- 3, - 5, - 5, - 3, - 5, - 5]" one_node ValueError
        "[5, 0, 5, 0]" 2 "[[5, 0], [5, 0]]"]
    by (simp add: one_node_residuals)
qed

section \<open>The objective and the memo\<close>

lemma objective_step_energy_frame:
  assumes "objective_step EnergyERCRD_methods X k (tot, s) = Inr (tot', s')"
  shows "s'\<lparr>prev_P := None\<rparr> = s\<lparr>prev_P := None\<rparr>"
proof -
  let ?t = "real k * dt s" and ?x = "X ! k"
  from assms obtain e1 s1 a1 s2 c1 where
    e: "EnergyERCRD_efficiency_term s ?x ?t = Inr (e1, s1)" and
    a: "EnergyERCRD_adaptability_term s1 ?x ?t = Inr (a1, s2)" and
    c: "EnergyERCRD_collective_efficiency_term s2 ?x ?t = Inr (c1, s')"
    by (auto simp: objective_step_def EnergyERCRD_methods_def Let_def split: sum.splits)
  from efficiency_frame [OF e] have 1: "s1 = s" .
  from adaptability_frame [OF a] have 2: "s2 = s1\<lparr>prev_P := Some (take (num_nodes s1) ?x)\<rparr>" .
  from collective_frame [OF c] have 3: "s' = s2" .
  show ?thesis unfolding 3 2 1 by simp
qed

lemma objective_loop_energy_frame:
  "objective_loop EnergyERCRD_methods X ks (tot, s) = Inr (tot', s') \<Longrightarrow>
   s'\<lparr>prev_P := None\<rparr> = s\<lparr>prev_P := None\<rparr>"
proof (induction ks arbitrary: tot s)
  case Nil
  then show ?case by simp
next
  case (Cons k ks)
  from Cons.prems obtain tot1 s1 where
    st: "objective_step EnergyERCRD_methods X k (tot, s) = Inr (tot1, s1)" and
    lp: "objective_loop EnergyERCRD_methods X ks (tot1, s1) = Inr (tot', s')"
    by (auto split: sum.splits)
  from Cons.IH [OF lp] objective_step_energy_frame [OF st] show ?case by simp
qed

lemma objective_function_energy_frame:
  "objective_function EnergyERCRD_methods s v = Inr (r, s') \<Longrightarrow>
   s'\<lparr>prev_P := None\<rparr> = s\<lparr>prev_P := None\<rparr>"
  by (auto simp: objective_function_def split: sum.splits dest: objective_loop_energy_frame)

lemma one_node_first_call:
  "objective_function EnergyERCRD_methods one_node [0, 0, 1, 0] =
     Inr (83 / 20, one_node\<lparr>prev_P := Some [1]\<rparr>)"
  by (simp add: one_node_def objective_function_def objective_decode_def reshape_def
      objective_step_def EnergyERCRD_methods_def EnergyERCRD_efficiency_term_def
      EnergyERCRD_adaptability_term_def EnergyERCRD_collective_efficiency_term_def
      np_sub_def np_index2_def upt_0_2 Let_def)

lemma one_node_second_call:
  "objective_function EnergyERCRD_methods (one_node\<lparr>prev_P := Some [1]\<rparr>) [0, 0, 1, 0] =
     Inr (43 / 10, one_node\<lparr>prev_P := Some [1]\<rparr>)"
  by (simp add: one_node_def objective_function_def objective_decode_def reshape_def
      objective_step_def EnergyERCRD_methods_def EnergyERCRD_efficiency_term_def
      EnergyERCRD_adaptability_term_def EnergyERCRD_collective_efficiency_term_def
      np_sub_def np_index2_def upt_0_2 Let_def)

text \<open>
  C9. The value of \<^verbatim>\<open>objective_function\<close> depends on the stored memo, not on the flat
  vector alone. On the freshly constructed one-node instance, whose adaptability weight
  is not zero, the vector \<open>[0, 0, 1, 0]\<close> costs \<open>83/20\<close>; a second call on the same
  vector, on the instance as the first call left it, costs \<open>43/10\<close>. When the memo is
  removed before each call the calls agree: a call on any instance without memo that
  returns \<open>r\<close> returns \<open>r\<close> again (and leaves the same instance) after the memo of the
  instance it left has been removed.
\<close>

theorem objective_depends_on_memo:
  "beta one_node \<noteq> 0 \<and> prev_P one_node = None \<and>
   objective_function EnergyERCRD_methods one_node [0, 0, 1, 0] =
     Inr (83 / 20, one_node\<lparr>prev_P := Some [1]\<rparr>) \<and>
   objective_function EnergyERCRD_methods (one_node\<lparr>prev_P := Some [1]\<rparr>) [0, 0, 1, 0] =
     Inr (43 / 10, one_node\<lparr>prev_P := Some [1]\<rparr>) \<and>
   (83 / 20 :: real) \<noteq> 43 / 10 \<and>
   (objective_function EnergyERCRD_methods (s\<lparr>prev_P := None\<rparr>) v = Inr (r, s1) \<longrightarrow>
    objective_function EnergyERCRD_methods (s1\<lparr>prev_P := None\<rparr>) v = Inr (r, s1))"
proof (intro conjI impI)
  show "beta one_node \<noteq> 0" "prev_P one_node = None"
    by (simp_all add: one_node_facts)
  show "objective_function EnergyERCRD_methods one_node [0, 0, 1, 0] =
     Inr (83 / 20, one_node\<lparr>prev_P := Some [1]\<rparr>)"
    by (rule one_node_first_call)
  show "objective_function EnergyERCRD_methods (one_node\<lparr>prev_P := Some [1]\<rparr>) [0, 0, 1, 0] =
     Inr (43 / 10, one_node\<lparr>prev_P := Some [1]\<rparr>)"
    by (rule one_node_second_call)
  show "(83 / 20 :: real) \<noteq> 43 / 10" by simp
next
  assume a: "objective_function EnergyERCRD_methods (s\<lparr>prev_P := None\<rparr>) v = Inr (r, s1)"
  from objective_function_energy_frame [OF a]
  have "s1\<lparr>prev_P := None\<rparr> = s\<lparr>prev_P := None\<rparr>" by simp
  with a show "objective_function EnergyERCRD_methods (s1\<lparr>prev_P := None\<rparr>) v = Inr (r, s1)"
    by simp
qed

theorem objective_depends_on_memo_witness:
  "objective_function EnergyERCRD_methods (one_node\<lparr>prev_P := None\<rparr>) [0, 0, 1, 0] =
     Inr (83 / 20, one_node\<lparr>prev_P := Some [1]\<rparr>) \<and>
   objective_function EnergyERCRD_methods (one_node\<lparr>prev_P := Some [1], prev_P := None\<rparr>)
       [0, 0, 1, 0] =
     Inr (83 / 20, one_node\<lparr>prev_P := Some [1]\<rparr>)"
proof -
  have r: "one_node\<lparr>prev_P := None\<rparr> = one_node" by (simp add: one_node_def)
  have a: "objective_function EnergyERCRD_methods (one_node\<lparr>prev_P := None\<rparr>) [0, 0, 1, 0] =
     Inr (83 / 20, one_node\<lparr>prev_P := Some [1]\<rparr>)"
    unfolding r by (rule one_node_first_call)
  from objective_depends_on_memo [of one_node "[0, 0, 1, 0]" "83 / 20"
      "one_node\<lparr>prev_P := Some [1]\<rparr>"] a
  show ?thesis by blast
qed

section \<open>The result of \<^verbatim>\<open>optimize\<close>\<close>

lemma optimize_cases:
  "optimize M minimize s x0 method max_iter =
     (case minimize (minimize_call M s x0 method max_iter) s of Inl e \<Rightarrow> Inl e
      | Inr (result, s1) \<Rightarrow>
          (case reshape (res_x result) (n_steps s1) (length x0) of Inl e \<Rightarrow> Inl e
           | Inr X \<Rightarrow>
               Inr ([(''success'', PyBool (res_success result)),
                     (''optimal_trajectory'', PyArray X),
                     (''final_cost'', PyFloat (res_fun result)),
                     (''nit'', PyInt (res_nit result))], s1)))"
  by (simp add: optimize_def Let_def)






lemma base_probe_raises:
  "probe_solver (minimize_call ERCRDOptimizer_methods
       \<lparr>alpha = 0.4, beta = 0.3, gamma = 0.3, T = 1, n_steps = 1, dt = 1\<rparr> [5, 0] ''SLSQP'' 1000)
     \<lparr>alpha = 0.4, beta = 0.3, gamma = 0.3, T = 1, n_steps = 1, dt = 1\<rparr> =
   Inl NotImplementedError"
  by (simp add: probe_solver_def minimize_call_def Let_def tile_def
      objective_function_def objective_decode_def reshape_def objective_step_def
      ERCRDOptimizer_methods_def)

lemma base_optimize_raises:
  "optimize ERCRDOptimizer_methods probe_solver
     \<lparr>alpha = 0.4, beta = 0.3, gamma = 0.3, T = 1, n_steps = 1, dt = 1\<rparr> [5, 0] ''SLSQP'' 1000 =
   Inl NotImplementedError"
  by (simp only: optimize_cases base_probe_raises sum.case)



section \<open>The initial state of \<^verbatim>\<open>optimize\<close>\<close>

lemma length_tile: "length (tile x0 K) = K * length x0"
  by (simp add: tile_def length_concat_rows [of _ "length x0"])

text \<open>
  C6, as the code has it. \<^verbatim>\<open>optimize\<close> does not compare the size of \<open>x0\<close> with
  anything: it takes that size as the state dimension, and for every \<open>x0\<close> the solver
  is called with the starting vector \<^verbatim>\<open>np.tile(x0, K)\<close> of \<open>K\<close> times that size. When
  \<^verbatim>\<open>optimize\<close> raises, either the solver call raised that exception or the solver
  returned a vector of the wrong length and the final reshape raised ValueError.
\<close>

theorem optimize_no_validation:
  "arg_x0 (minimize_call M s x0 method max_iter) = tile x0 (n_steps s) \<and>
   length (arg_x0 (minimize_call M s x0 method max_iter)) = n_steps s * length x0 \<and>
   (optimize M minimize s x0 method max_iter = Inl e \<longrightarrow>
      minimize (minimize_call M s x0 method max_iter) s = Inl e \<or>
      (\<exists>result s1. minimize (minimize_call M s x0 method max_iter) s = Inr (result, s1) \<and>
         length (res_x result) \<noteq> n_steps s1 * length x0 \<and> e = ValueError))"
proof (intro conjI impI)
  show "arg_x0 (minimize_call M s x0 method max_iter) = tile x0 (n_steps s)"
    by (simp add: minimize_call_def Let_def)
  then show "length (arg_x0 (minimize_call M s x0 method max_iter)) = n_steps s * length x0"
    by (simp add: length_tile)
next
  assume a: "optimize M minimize s x0 method max_iter = Inl e"
  show "minimize (minimize_call M s x0 method max_iter) s = Inl e \<or>
      (\<exists>result s1. minimize (minimize_call M s x0 method max_iter) s = Inr (result, s1) \<and>
         length (res_x result) \<noteq> n_steps s1 * length x0 \<and> e = ValueError)"
  proof (cases "minimize (minimize_call M s x0 method max_iter) s")
    case (Inl e')
    with a show ?thesis by (simp add: optimize_cases)
  next
    case (Inr p)
    obtain result s1 where p: "p = (result, s1)" by (cases p)
    from a Inr p have r: "reshape (res_x result) (n_steps s1) (length x0) = Inl e"
      by (simp add: optimize_cases split: sum.splits)
    then have "length (res_x result) \<noteq> n_steps s1 * length x0 \<and> e = ValueError"
      by (auto simp: reshape_def split: if_splits)
    with Inr p show ?thesis by simp
  qed
qed

theorem optimize_no_validation_witness:
  "optimize ERCRDOptimizer_methods probe_solver
     \<lparr>alpha = 0.4, beta = 0.3, gamma = 0.3, T = 1, n_steps = 1, dt = 1\<rparr> [5, 0] ''SLSQP'' 1000 =
     Inl NotImplementedError \<and>
   (probe_solver (minimize_call ERCRDOptimizer_methods
       \<lparr>alpha = 0.4, beta = 0.3, gamma = 0.3, T = 1, n_steps = 1, dt = 1\<rparr> [5, 0] ''SLSQP'' 1000)
     \<lparr>alpha = 0.4, beta = 0.3, gamma = 0.3, T = 1, n_steps = 1, dt = 1\<rparr> =
     Inl NotImplementedError \<or>
    (\<exists>result s1. probe_solver (minimize_call ERCRDOptimizer_methods
       \<lparr>alpha = 0.4, beta = 0.3, gamma = 0.3, T = 1, n_steps = 1, dt = 1\<rparr> [5, 0] ''SLSQP'' 1000)
        \<lparr>alpha = 0.4, beta = 0.3, gamma = 0.3, T = 1, n_steps = 1, dt = 1\<rparr> = Inr (result, s1) \<and>
       length (res_x result) \<noteq> n_steps s1 * length [5, 0 :: real] \<and>
       NotImplementedError = ValueError))"
  using base_optimize_raises
    optimize_no_validation [of ERCRDOptimizer_methods
      "\<lparr>alpha = 0.4, beta = 0.3, gamma = 0.3, T = 1, n_steps = 1, dt = 1\<rparr>" "[5, 0]" "''SLSQP''"
      1000 probe_solver NotImplementedError]
  by blast

lemma tile_twice: "tile x0 2 = x0 @ x0"
  by (simp add: tile_def numeral_2_eq_2)

lemma one_node_objective_start3:
  "objective_function EnergyERCRD_methods one_node [5, 0, 0, 5, 0, 0] =
     Inr (4, one_node\<lparr>prev_P := Some [5]\<rparr>)"
  by (simp add: one_node_def objective_function_def objective_decode_def reshape_def
      objective_step_def EnergyERCRD_methods_def EnergyERCRD_efficiency_term_def
      EnergyERCRD_adaptability_term_def EnergyERCRD_collective_efficiency_term_def
      np_sub_def np_index2_def upt_0_2 Let_def)

text \<open>
  The claim as stated fails: the states of the one-node energy instance have two
  entries, yet \<^verbatim>\<open>optimize\<close> on an \<open>x0\<close> of three entries calls the solver, which
  evaluates the objective, and returns a trajectory of rows of three entries.
\<close>

theorem optimize_wrong_dimension_counterexample:
  "length [5, 0, 0 :: real] \<noteq> 2 * num_nodes one_node \<and>
   optimize EnergyERCRD_methods probe_solver one_node [5, 0, 0] ''SLSQP'' 1000 =
     Inr ([(''success'', PyBool True), (''optimal_trajectory'', PyArray [[5, 0, 0], [5, 0, 0]]),
           (''final_cost'', PyFloat 4), (''nit'', PyInt 1)], one_node\<lparr>prev_P := Some [5]\<rparr>)"
  by (simp add: optimize_cases probe_solver_def minimize_call_def Let_def tile_twice
      one_node_objective_start3 reshape_def one_node_facts upt_0_2)

end
